theory Spec2Isabelle
  imports Complex_Main
begin

section \<open>Cell domain model (core/domain/cell.js)\<close>

text \<open>
  A cell id is a JavaScript value of type \<open>string | null\<close>: \<open>None\<close> is \<open>null\<close>.
  The code tests ids for truthiness (\<open>if (cellId)\<close>, \<open>state.selectedCellId && ...\<close>):
  \<open>null\<close> and the empty string are falsy, every other string is truthy. The ids of the
  spatial index are non-empty strings, so for them "non-null" and "truthy" are the same.
\<close>

type_synonym cellid = "string option"

definition truthy :: "cellid \<Rightarrow> bool" where
  "truthy c = (case c of None \<Rightarrow> False | Some str \<Rightarrow> str \<noteq> [])"

datatype CellState = DEFAULT | HOVERED | SELECTED | OWNED | FOREIGN

record cell =
  cell_id :: cellid
  state :: CellState
  ownerId :: "string option"
  structures :: "string list"
  createdAt :: nat

text \<open>
  The \<open>options\<close> argument of \<open>createCell\<close>: every key may be absent. \<open>no_options\<close> is the
  default \<open>{}\<close>, the only value the callers in the repository pass.
\<close>

record cell_options =
  opt_state :: "CellState option"
  opt_ownerId :: "string option"
  opt_structures :: "string list option"
  opt_createdAt :: "nat option"

definition no_options :: cell_options where
  "no_options = \<lparr>opt_state = None, opt_ownerId = None, opt_structures = None,
                  opt_createdAt = None\<rparr>"

text \<open>
  \<open>createCell(id, options)\<close>. The argument \<open>now\<close> is the value \<open>Date.now()\<close> returns when
  it is read; \<open>a || b\<close> takes \<open>b\<close> when \<open>a\<close> is falsy (absent, the empty string, 0).
\<close>

definition createCell :: "nat \<Rightarrow> cellid \<Rightarrow> cell_options \<Rightarrow> cell" where
  "createCell now i options =
     \<lparr>cell_id = i,
      state = (case opt_state options of None \<Rightarrow> DEFAULT | Some st \<Rightarrow> st),
      ownerId = (case opt_ownerId options of None \<Rightarrow> None
                 | Some ow \<Rightarrow> if ow = [] then None else Some ow),
      structures = (case opt_structures options of None \<Rightarrow> [] | Some xs \<Rightarrow> xs),
      createdAt = (case opt_createdAt options of None \<Rightarrow> now
                   | Some t \<Rightarrow> if t = 0 then now else t)\<rparr>"

definition isCellSelectable :: "cell \<Rightarrow> bool" where
  "isCellSelectable _ = True"

definition isCellOwned :: "cell \<Rightarrow> bool" where
  "isCellOwned c = (ownerId c \<noteq> None)"

section \<open>Cell state store (api/landApi.js)\<close>

text \<open>
  The module constant \<open>state\<close> holds the two pointers and the \<open>Map\<close> from cell id to cell
  record; \<open>getState()\<close> returns an object of the same shape. The store adds the log of
  what the subscribers were told: every run of \<open>notifySubscribers()\<close> calls each registered
  callback once with the snapshot \<open>getState()\<close>, and appends that snapshot to \<open>notified\<close>.
  The length of \<open>notified\<close> is the number of notifications a subscriber has received.
\<close>

record snapshot =
  selectedCellId :: cellid
  hoveredCellId :: cellid
  cells :: "cellid \<rightharpoonup> cell"

record store = snapshot +
  notified :: "snapshot list"

definition initial_store :: store where
  "initial_store = \<lparr>selectedCellId = None, hoveredCellId = None, cells = Map.empty,
                     notified = []\<rparr>"

definition getState :: "store \<Rightarrow> snapshot" where
  "getState s = \<lparr>selectedCellId = selectedCellId s, hoveredCellId = hoveredCellId s,
                 cells = cells s\<rparr>"

definition notifySubscribers :: "store \<Rightarrow> store" where
  "notifySubscribers s = s\<lparr>notified := notified s @ [getState s]\<rparr>"

text \<open>
  The object an API call returns. A key the call does not set is \<open>None\<close>:
  \<open>clearSelection\<close> returns only \<open>success\<close>, \<open>setHoveredCell\<close> returns \<open>success\<close> and
  \<open>cellId\<close>.
\<close>

record api_result =
  success :: bool
  res_cellId :: "cellid option"
  res_cell :: "cell option"

text \<open>
  \<open>Map.get\<close> returns \<open>undefined\<close> for a missing key. Where the code goes on to use the
  record it just looked up (\<open>cell.state\<close>, \<open>{...cell, state: ...}\<close>), JavaScript would
  throw a TypeError or build a record without an id; the model stops with a fault there.
\<close>

datatype fault = UndefinedRecord

definition selectCell :: "nat \<Rightarrow> cellid \<Rightarrow> store \<Rightarrow> fault + (api_result \<times> store)" where
  "selectCell now c s =
     (let s1 = (if cells s c = None
                then s\<lparr>cells := (cells s)(c \<mapsto> createCell now c no_options)\<rparr> else s);
          s2 = (if truthy (selectedCellId s1) then
                  (case cells s1 (selectedCellId s1) of
                     None \<Rightarrow> s1
                   | Some prevCell \<Rightarrow>
                       s1\<lparr>cells := (cells s1)(selectedCellId s1 \<mapsto> prevCell\<lparr>state := DEFAULT\<rparr>)\<rparr>)
                else s1);
          s3 = s2\<lparr>selectedCellId := c\<rparr>
      in case cells s3 c of
           None \<Rightarrow> Inl UndefinedRecord
         | Some cell \<Rightarrow>
             (let s4 = s3\<lparr>cells := (cells s3)(c \<mapsto> cell\<lparr>state := SELECTED\<rparr>)\<rparr>;
                  s5 = notifySubscribers s4
              in Inr (\<lparr>success = True, res_cellId = Some c, res_cell = cells s5 c\<rparr>, s5)))"

definition clearSelection :: "store \<Rightarrow> api_result \<times> store" where
  "clearSelection s =
     (let s1 = (if truthy (selectedCellId s) then
                  (case cells s (selectedCellId s) of
                     None \<Rightarrow> s
                   | Some cell \<Rightarrow>
                       s\<lparr>cells := (cells s)(selectedCellId s \<mapsto> cell\<lparr>state := DEFAULT\<rparr>)\<rparr>)
                else s);
          s2 = s1\<lparr>selectedCellId := None\<rparr>;
          s3 = notifySubscribers s2
      in (\<lparr>success = True, res_cellId = None, res_cell = None\<rparr>, s3))"

definition setHoveredCell :: "nat \<Rightarrow> cellid \<Rightarrow> store \<Rightarrow> fault + (api_result \<times> store)" where
  "setHoveredCell now c s =
     (if hoveredCellId s = c
      then Inr (\<lparr>success = True, res_cellId = Some c, res_cell = None\<rparr>, s)
      else
        let s1 = (if truthy (hoveredCellId s) then
                    (case cells s (hoveredCellId s) of
                       None \<Rightarrow> s
                     | Some prevCell \<Rightarrow>
                         if state prevCell = HOVERED
                         then s\<lparr>cells := (cells s)(hoveredCellId s \<mapsto> prevCell\<lparr>state := DEFAULT\<rparr>)\<rparr>
                         else s)
                  else s);
            s2 = s1\<lparr>hoveredCellId := c\<rparr>
        in if truthy c then
             (let s3 = (if cells s2 c = None
                        then s2\<lparr>cells := (cells s2)(c \<mapsto> createCell now c no_options)\<rparr>
                        else s2)
              in case cells s3 c of
                   None \<Rightarrow> Inl UndefinedRecord
                 | Some cell \<Rightarrow>
                     (let s4 = (if state cell \<noteq> SELECTED
                                then s3\<lparr>cells := (cells s3)(c \<mapsto> cell\<lparr>state := HOVERED\<rparr>)\<rparr>
                                else s3)
                      in Inr (\<lparr>success = True, res_cellId = Some c, res_cell = None\<rparr>,
                              notifySubscribers s4)))
           else Inr (\<lparr>success = True, res_cellId = Some c, res_cell = None\<rparr>,
                     notifySubscribers s2))"

definition getCell :: "cellid \<Rightarrow> store \<Rightarrow> cell option" where
  "getCell c s = cells s c"

definition getSelectedCellId :: "store \<Rightarrow> cellid" where
  "getSelectedCellId s = selectedCellId s"

definition getHoveredCellId :: "store \<Rightarrow> cellid" where
  "getHoveredCellId s = hoveredCellId s"


text \<open>
  A sequence of calls of the store's mutating operations, each with the clock reading it
  would see. \<open>run\<close> performs them in order and collects the returned objects.
\<close>

datatype api_call = SelectCell cellid | ClearSelection | SetHoveredCell cellid

fun call :: "nat \<Rightarrow> api_call \<Rightarrow> store \<Rightarrow> fault + (api_result \<times> store)" where
  "call now (SelectCell c) s = selectCell now c s"
| "call now ClearSelection s = Inr (clearSelection s)"
| "call now (SetHoveredCell c) s = setHoveredCell now c s"

fun run :: "(nat \<times> api_call) list \<Rightarrow> store \<Rightarrow> fault + (api_result list \<times> store)" where
  "run [] s = Inr ([], s)"
| "run ((now, a) # rest) s =
     (case call now a s of
        Inl f \<Rightarrow> Inl f
      | Inr (res, s') \<Rightarrow>
          (case run rest s' of
             Inl f \<Rightarrow> Inl f
           | Inr (ress, s'') \<Rightarrow> Inr (res # ress, s'')))"

text \<open>The selected cell has a record, and the record says SELECTED.\<close>

definition selection_mirrored :: "store \<Rightarrow> bool" where
  "selection_mirrored s =
     (case selectedCellId s of
        None \<Rightarrow> True
      | Some i \<Rightarrow> (case cells s (Some i) of None \<Rightarrow> False | Some r \<Rightarrow> state r = SELECTED))"

section \<open>Domain events (core/events/index.js)\<close>

datatype EventType =
  CELL_SELECTED | CELL_HOVERED | CELL_UNHOVERED | GLOBE_ROTATED | GLOBE_ZOOMED | SELECTION_CLEARED

datatype vec3 = Vector3 real real real

typedecl intersection

text \<open>
  The context object the platform layer hands to the interactions layer. A key that is
  absent is \<open>None\<close>. An event's payload is \<open>{cellId, ...metadata}\<close>: the cell id and the
  keys spread from the context.
\<close>

record action_context =
  point :: "vec3 option"
  intersection :: "intersection option"
  previousCellId :: cellid

definition empty_context :: action_context where
  "empty_context = \<lparr>point = None, intersection = None, previousCellId = None\<rparr>"

record payload =
  cellId :: cellid
  metadata :: action_context

record event =
  etype :: EventType
  payload :: payload
  timestamp :: nat

definition createEvent :: "nat \<Rightarrow> EventType \<Rightarrow> payload \<Rightarrow> event" where
  "createEvent now ty pl = \<lparr>etype = ty, payload = pl, timestamp = now\<rparr>"

definition cellSelected :: "nat \<Rightarrow> cellid \<Rightarrow> action_context \<Rightarrow> event" where
  "cellSelected now c md = createEvent now CELL_SELECTED \<lparr>cellId = c, metadata = md\<rparr>"

definition cellHovered :: "nat \<Rightarrow> cellid \<Rightarrow> event" where
  "cellHovered now c = createEvent now CELL_HOVERED \<lparr>cellId = c, metadata = empty_context\<rparr>"

definition cellUnhovered :: "nat \<Rightarrow> cellid \<Rightarrow> event" where
  "cellUnhovered now c = createEvent now CELL_UNHOVERED \<lparr>cellId = c, metadata = empty_context\<rparr>"

definition selectionCleared :: "nat \<Rightarrow> event" where
  "selectionCleared now =
     createEvent now SELECTION_CLEARED \<lparr>cellId = None, metadata = empty_context\<rparr>"

section \<open>Interaction mapping (interactions/pointerEvents.js) and pointer input (platform/web/input.js)\<close>

text \<open>
  The module state of the three layers together: the store, the hover memo
  \<open>currentHoveredCellId\<close> of the input layer, and the events handed to \<open>emitEvent\<close> in
  order (each is passed to every listener registered for its type). \<open>Date.now()\<close> is an
  input: \<open>clk n\<close> is what the clock shows at the \<open>n\<close>-th place of a run that may read it,
  and \<open>ticks\<close> counts the places passed so far.
\<close>

record world =
  api :: store
  currentHoveredCellId :: cellid
  emitted :: "event list"
  ticks :: nat

definition initial_world :: world where
  "initial_world = \<lparr>api = initial_store, currentHoveredCellId = None, emitted = [], ticks = 0\<rparr>"

definition emitEvent :: "event \<Rightarrow> world \<Rightarrow> world" where
  "emitEvent ev w = w\<lparr>emitted := emitted w @ [ev]\<rparr>"

definition handleCellSelect :: "(nat \<Rightarrow> nat) \<Rightarrow> cellid \<Rightarrow> action_context \<Rightarrow> world \<Rightarrow> fault + world" where
  "handleCellSelect clk c md w =
     (let ev = cellSelected (clk (ticks w)) c md;
          w1 = emitEvent ev (w\<lparr>ticks := Suc (ticks w)\<rparr>)
      in case selectCell (clk (ticks w1)) c (api w1) of
           Inl f \<Rightarrow> Inl f
         | Inr (res, s') \<Rightarrow> Inr (w1\<lparr>api := s', ticks := Suc (ticks w1)\<rparr>))"

definition handleCellHoverEnter :: "(nat \<Rightarrow> nat) \<Rightarrow> cellid \<Rightarrow> world \<Rightarrow> fault + world" where
  "handleCellHoverEnter clk c w =
     (let ev = cellHovered (clk (ticks w)) c;
          w1 = emitEvent ev (w\<lparr>ticks := Suc (ticks w)\<rparr>)
      in case setHoveredCell (clk (ticks w1)) c (api w1) of
           Inl f \<Rightarrow> Inl f
         | Inr (res, s') \<Rightarrow> Inr (w1\<lparr>api := s', ticks := Suc (ticks w1)\<rparr>))"

definition handleCellHoverExit :: "(nat \<Rightarrow> nat) \<Rightarrow> cellid \<Rightarrow> world \<Rightarrow> fault + world" where
  "handleCellHoverExit clk c w =
     (let ev = cellUnhovered (clk (ticks w)) c;
          w1 = emitEvent ev (w\<lparr>ticks := Suc (ticks w)\<rparr>)
      in case setHoveredCell (clk (ticks w1)) None (api w1) of
           Inl f \<Rightarrow> Inl f
         | Inr (res, s') \<Rightarrow> Inr (w1\<lparr>api := s', ticks := Suc (ticks w1)\<rparr>))"

definition handlePointerAction ::
  "(nat \<Rightarrow> nat) \<Rightarrow> string \<Rightarrow> cellid \<Rightarrow> action_context \<Rightarrow> world \<Rightarrow> fault + world" where
  "handlePointerAction clk actionType c ctx w =
     (if \<not> truthy c then
        (if actionType = ''hover-exit'' then handleCellHoverExit clk (previousCellId ctx) w
         else Inr w)
      else if actionType = ''select'' then handleCellSelect clk c ctx w
      else if actionType = ''hover-enter'' then handleCellHoverEnter clk c w
      else if actionType = ''hover-exit'' then handleCellHoverExit clk c w
      else Inr w)"

text \<open>
  The pointer event of the renderer: the intersection point, and the list of
  intersections when the renderer supplies one (\<open>event.intersections?.[0]\<close>).
\<close>

record pointer_event =
  event_point :: vec3
  event_intersections :: "intersection list option"

definition first_intersection :: "pointer_event \<Rightarrow> intersection option" where
  "first_intersection e =
     (case event_intersections e of
        None \<Rightarrow> None
      | Some xs \<Rightarrow> (case xs of [] \<Rightarrow> None | x # _ \<Rightarrow> Some x))"

definition onPointerDown ::
  "(vec3 \<Rightarrow> cellid) \<Rightarrow> (nat \<Rightarrow> nat) \<Rightarrow> pointer_event \<Rightarrow> world \<Rightarrow> fault + world" where
  "onPointerDown getCellIdFromPoint clk e w =
     (let c = getCellIdFromPoint (event_point e) in
      if truthy c then
        handlePointerAction clk ''select'' c
          \<lparr>point = Some (event_point e), intersection = first_intersection e,
           previousCellId = None\<rparr> w
      else Inr w)"


definition onPointerLeave :: "(nat \<Rightarrow> nat) \<Rightarrow> world \<Rightarrow> fault + world" where
  "onPointerLeave clk w =
     (if truthy (currentHoveredCellId w) then
        (case handlePointerAction clk ''hover-exit'' None
                \<lparr>point = None, intersection = None,
                 previousCellId = currentHoveredCellId w\<rparr> w of
           Inl f \<Rightarrow> Inl f
         | Inr w1 \<Rightarrow> Inr (w1\<lparr>currentHoveredCellId := None\<rparr>))
      else Inr w)"

definition resetInputState :: "world \<Rightarrow> world" where
  "resetInputState w = w\<lparr>currentHoveredCellId := None\<rparr>"




section \<open>Spatial index constants (core/h3/index.js)\<close>

text \<open>
  The functions of the spatial index library (\<open>latLngToCell\<close>, \<open>cellToLatLng\<close>,
  \<open>cellToBoundary\<close>, \<open>gridDisk\<close>) are not part of the repository; the definitions below
  take them as arguments.
\<close>

definition DEFAULT_RESOLUTION :: nat where
  "DEFAULT_RESOLUTION = 12"

definition VISIBLE_GRID_RESOLUTION :: nat where
  "VISIBLE_GRID_RESOLUTION = 4"

definition getH3Index :: "(real \<Rightarrow> real \<Rightarrow> nat \<Rightarrow> cellid) \<Rightarrow> real \<Rightarrow> real \<Rightarrow> nat option \<Rightarrow> cellid" where
  "getH3Index latLngToCell lat lng resolution =
     latLngToCell lat lng (case resolution of None \<Rightarrow> DEFAULT_RESOLUTION | Some r \<Rightarrow> r)"

section \<open>Hex grid geometry and picking (viewer/HexGrid.jsx)\<close>

text \<open>
  JavaScript numbers are modelled as real numbers: rounding is not modelled.
  \<open>Math.acos\<close> is \<open>arccos\<close>, \<open>Math.atan2\<close> is the two-argument arctangent with values in
  \<open>(-\<pi>, \<pi>]\<close>. The vector operations are those of the rendering library:
  \<open>normalize()\<close> divides by the length, or by 1 when the length is 0, and
  \<open>MathUtils.clamp(v, lo, hi)\<close> is \<open>max(lo, min(hi, v))\<close>.
\<close>

definition GLOBE_RADIUS :: real where
  "GLOBE_RADIUS = 1"

definition MIN_GRID_RINGS :: int where
  "MIN_GRID_RINGS = 8"

definition MAX_GRID_RINGS :: int where
  "MAX_GRID_RINGS = 140"

definition OUTLINE_RADIUS_MULT :: real where
  "OUTLINE_RADIUS_MULT = 1004 / 1000"

definition FILL_RADIUS_MULT :: real where
  "FILL_RADIUS_MULT = 1005 / 1000"

definition INTERACTION_RADIUS_MULT :: real where
  "INTERACTION_RADIUS_MULT = 1006 / 1000"

definition atan2 :: "real \<Rightarrow> real \<Rightarrow> real" where
  "atan2 b a =
     (if 0 < a then arctan (b / a)
      else if a < 0 then (if 0 \<le> b then arctan (b / a) + pi else arctan (b / a) - pi)
      else if 0 < b then pi / 2
      else if b < 0 then - (pi / 2)
      else 0)"

fun vec_length :: "vec3 \<Rightarrow> real" where
  "vec_length (Vector3 a b c) = sqrt (a * a + b * b + c * c)"

fun multiplyScalar :: "vec3 \<Rightarrow> real \<Rightarrow> vec3" where
  "multiplyScalar (Vector3 a b c) k = Vector3 (a * k) (b * k) (c * k)"

definition divideScalar :: "vec3 \<Rightarrow> real \<Rightarrow> vec3" where
  "divideScalar v k = multiplyScalar v (1 / k)"

definition normalize :: "vec3 \<Rightarrow> vec3" where
  "normalize v = divideScalar v (if vec_length v = 0 then 1 else vec_length v)"

definition clamp :: "'a::linorder \<Rightarrow> 'a \<Rightarrow> 'a \<Rightarrow> 'a" where
  "clamp v lo hi = max lo (min hi v)"

definition degToRad :: "real \<Rightarrow> real" where
  "degToRad deg = (deg * pi) / 180"

definition angularDistanceRad :: "real \<Rightarrow> real \<Rightarrow> real \<Rightarrow> real \<Rightarrow> real" where
  "angularDistanceRad lat1 lng1 lat2 lng2 =
     (let phi1 = degToRad lat1;
          phi2 = degToRad lat2;
          dLambda = degToRad (lng2 - lng1);
          cosD = sin phi1 * sin phi2 + cos phi1 * cos phi2 * cos dLambda;
          clamped = min 1 (max (- 1) cosD)
      in arccos clamped)"

definition estimateRingStepRad ::
  "(cellid \<Rightarrow> real \<times> real) \<Rightarrow> (cellid \<Rightarrow> nat \<Rightarrow> cellid list) \<Rightarrow> cellid \<Rightarrow> real option" where
  "estimateRingStepRad cellToLatLng gridDisk centerCell =
     (case cellToLatLng centerCell of (centerLat, centerLng) \<Rightarrow>
        (let ring1 = gridDisk centerCell 1 in
         case find (\<lambda>i. i \<noteq> centerCell) ring1 of
           None \<Rightarrow> None
         | Some neighborCell \<Rightarrow>
             if \<not> truthy neighborCell then None
             else (case cellToLatLng neighborCell of (nLat, nLng) \<Rightarrow>
                     Some (angularDistanceRad centerLat centerLng nLat nLng))))"

definition latLngToVector3 :: "real \<Rightarrow> real \<Rightarrow> real \<Rightarrow> vec3" where
  "latLngToVector3 lat lng radius =
     (let phi = (90 - lat) * (pi / 180);
          theta = (lng + 180) * (pi / 180)
      in Vector3 (- radius * sin phi * cos theta) (radius * cos phi)
                 (radius * sin phi * sin theta))"

definition vector3ToLatLng :: "vec3 \<Rightarrow> real \<times> real" where
  "vector3ToLatLng p =
     (case normalize p of Vector3 nx ny nz \<Rightarrow>
        (let lat = 90 - arccos ny * (180 / pi);
             lng = atan2 nz (- nx) * (180 / pi) - 180
         in (lat, if lng < - 180 then lng + 360 else lng)))"

definition getCellColor :: "cellid \<Rightarrow> (cellid \<rightharpoonup> cell) \<Rightarrow> cellid \<Rightarrow> cellid \<Rightarrow> string" where
  "getCellColor c cs sel hov =
     (if c = sel then ''#00ff88''
      else if c = hov then ''#44aaff''
      else (case cs c of
              Some cell \<Rightarrow>
                (case state cell of
                   SELECTED \<Rightarrow> ''#00ff88''
                 | HOVERED \<Rightarrow> ''#44aaff''
                 | OWNED \<Rightarrow> ''#ffaa00''
                 | _ \<Rightarrow> ''#ffffff'')
            | None \<Rightarrow> ''#ffffff''))"

text \<open>
  The number of rings \<open>hexCells\<close> asks the index for, from the step estimate
  (\<open>None\<close> when \<open>estimateRingStepRad\<close> returns \<open>null\<close>), in radians.
\<close>

definition hexCells_rings :: "real option \<Rightarrow> int" where
  "hexCells_rings estimate =
     (let ringStep = (case estimate of None \<Rightarrow> degToRad 1 | Some r \<Rightarrow> r);
          desiredRadius = pi / 2 + degToRad 8
      in clamp \<lceil>desiredRadius / max ringStep (1 / 10 ^ 6)\<rceil> MIN_GRID_RINGS MAX_GRID_RINGS)"

definition hexCells ::
  "(cellid \<Rightarrow> real \<times> real) \<Rightarrow> (cellid \<Rightarrow> nat \<Rightarrow> cellid list) \<Rightarrow> (cellid \<Rightarrow> (real \<times> real) list) \<Rightarrow>
   cellid \<Rightarrow> (cellid \<times> (real \<times> real) list) list" where
  "hexCells cellToLatLng gridDisk cellToBoundary viewCenterCellId =
     (let centerCell = viewCenterCellId;
          rings = hexCells_rings (estimateRingStepRad cellToLatLng gridDisk centerCell);
          cellIds = gridDisk centerCell (nat rings)
      in map (\<lambda>c. (c, cellToBoundary c)) cellIds)"

definition getCellIdFromPoint :: "(real \<Rightarrow> real \<Rightarrow> nat \<Rightarrow> cellid) \<Rightarrow> vec3 \<Rightarrow> cellid" where
  "getCellIdFromPoint latLngToCell p =
     (case vector3ToLatLng p of (lat, lng) \<Rightarrow> latLngToCell lat lng VISIBLE_GRID_RESOLUTION)"

text \<open>
  The ring count in the words of the specification, with the step and the floor in
  degrees: the ceiling of (90 + 8) over the step, the step not below the floor,
  clamped to the configured bounds.
\<close>

definition ring_count_spec :: "real \<Rightarrow> real \<Rightarrow> int" where
  "ring_count_spec step_deg floor_deg =
     max MIN_GRID_RINGS (min MAX_GRID_RINGS \<lceil>(90 + 8) / max step_deg floor_deg\<rceil>)"

section \<open>Snapshots and object identity\<close>

text \<open>
  \<open>getState()\<close> builds \<open>new Map(state.cells)\<close>: a new \<open>Map\<close> object whose entries refer to
  the same cell record objects. To speak about what a caller can reach through a
  snapshot, objects get addresses: the heap holds the cell record objects and the
  \<open>Map\<close> objects (key to address of a record object); an object of the shape
  \<open>{selectedCellId, hoveredCellId, cells}\<close> holds the address of its \<open>Map\<close>.
\<close>

type_synonym ref = nat

record heap =
  records :: "ref \<rightharpoonup> cell"
  maps :: "ref \<rightharpoonup> (cellid \<rightharpoonup> ref)"
  next_ref :: ref

record state_obj =
  obj_selectedCellId :: cellid
  obj_hoveredCellId :: cellid
  obj_cells :: ref

definition entries_of :: "heap \<Rightarrow> ref \<Rightarrow> (cellid \<rightharpoonup> ref)" where
  "entries_of h m = (case maps h m of None \<Rightarrow> Map.empty | Some es \<Rightarrow> es)"

definition getState_heap :: "heap \<Rightarrow> state_obj \<Rightarrow> heap \<times> state_obj" where
  "getState_heap h st =
     (let m = next_ref h
      in (h\<lparr>maps := (maps h)(m \<mapsto> entries_of h (obj_cells st)), next_ref := Suc m\<rparr>,
          \<lparr>obj_selectedCellId = obj_selectedCellId st,
           obj_hoveredCellId = obj_hoveredCellId st,
           obj_cells = m\<rparr>))"

text \<open>What an object of that shape shows when its references are followed.\<close>

definition view :: "heap \<Rightarrow> state_obj \<Rightarrow> snapshot" where
  "view h st =
     \<lparr>selectedCellId = obj_selectedCellId st,
      hoveredCellId = obj_hoveredCellId st,
      cells = (\<lambda>k. case entries_of h (obj_cells st) k of
                      None \<Rightarrow> None
                    | Some r \<Rightarrow> records h r)\<rparr>"

text \<open>
  What a caller can do to a snapshot it holds: \<open>snap.cells.set(k, {...})\<close> with a new
  record object, \<open>snap.cells.set(k, obj)\<close> with an object it already holds,
  \<open>snap.cells.delete(k)\<close>, \<open>snap.cells.clear()\<close>, assignments to the two pointer fields,
  and writes to the fields of the record object found under a key
  (\<open>Object.assign(snap.cells.get(k), {...})\<close>; nothing is written when the key is
  missing).
\<close>

datatype mutation =
    MapSet cellid cell
  | MapSetRef cellid ref
  | MapDelete cellid
  | MapClear
  | SetSelected cellid
  | SetHovered cellid
  | RecordAssign cellid cell

fun mutate :: "heap \<times> state_obj \<Rightarrow> mutation \<Rightarrow> heap \<times> state_obj" where
  "mutate (h, snap) (MapSet k c) =
     (let r = next_ref h
      in (h\<lparr>records := (records h)(r \<mapsto> c),
            maps := (maps h)(obj_cells snap \<mapsto> (entries_of h (obj_cells snap))(k \<mapsto> r)),
            next_ref := Suc r\<rparr>, snap))"
| "mutate (h, snap) (MapSetRef k r) =
     (h\<lparr>maps := (maps h)(obj_cells snap \<mapsto> (entries_of h (obj_cells snap))(k \<mapsto> r))\<rparr>, snap)"
| "mutate (h, snap) (MapDelete k) =
     (h\<lparr>maps := (maps h)(obj_cells snap \<mapsto> (entries_of h (obj_cells snap))(k := None))\<rparr>, snap)"
| "mutate (h, snap) MapClear =
     (h\<lparr>maps := (maps h)(obj_cells snap \<mapsto> Map.empty)\<rparr>, snap)"
| "mutate (h, snap) (SetSelected v) = (h, snap\<lparr>obj_selectedCellId := v\<rparr>)"
| "mutate (h, snap) (SetHovered v) = (h, snap\<lparr>obj_hoveredCellId := v\<rparr>)"
| "mutate (h, snap) (RecordAssign k c) =
     (case entries_of h (obj_cells snap) k of
        None \<Rightarrow> (h, snap)
      | Some r \<Rightarrow> (h\<lparr>records := (records h)(r \<mapsto> c)\<rparr>, snap))"

fun touches_record :: "mutation \<Rightarrow> bool" where
  "touches_record (RecordAssign _ _) = True"
| "touches_record _ = False"

text \<open>
  The store's own object is allocated: its \<open>Map\<close>, every record object and every
  reference held in the \<open>Map\<close> lie below the allocation pointer.
\<close>

definition allocated :: "heap \<Rightarrow> state_obj \<Rightarrow> bool" where
  "allocated h st =
     (obj_cells st < next_ref h \<and>
      (\<forall>r. records h r \<noteq> None \<longrightarrow> r < next_ref h) \<and>
      (\<forall>k r. entries_of h (obj_cells st) k = Some r \<longrightarrow> r < next_ref h))"

section \<open>Example states\<close>

text \<open>A store in which cell \<open>a\<close> is selected and nothing is hovered.\<close>

definition store_a :: store where
  "store_a =
     \<lparr>selectedCellId = Some ''a'', hoveredCellId = None,
      cells = [Some ''a'' \<mapsto> \<lparr>cell_id = Some ''a'', state = SELECTED, ownerId = None,
                              structures = [], createdAt = 1\<rparr>],
      notified = []\<rparr>"

text \<open>
  A store whose selected cell \<open>p\<close> has a record that says OWNED (the state the code
  reserves for cells of the current player).
\<close>

definition store_p_owned :: store where
  "store_p_owned =
     \<lparr>selectedCellId = Some ''p'', hoveredCellId = None,
      cells = [Some ''p'' \<mapsto> \<lparr>cell_id = Some ''p'', state = OWNED, ownerId = Some ''me'',
                              structures = [], createdAt = 1\<rparr>],
      notified = []\<rparr>"

text \<open>
  What the record of a cell says, and which cell is hovered, after a run of calls
  (\<open>None\<close> when the run faults; for the record also when the cell has none).
\<close>

definition record_state_after :: "(nat \<times> api_call) list \<Rightarrow> store \<Rightarrow> cellid \<Rightarrow> CellState option" where
  "record_state_after calls s k =
     (case run calls s of Inl f \<Rightarrow> None | Inr (ress, s') \<Rightarrow> map_option state (cells s' k))"

definition hovered_after :: "(nat \<times> api_call) list \<Rightarrow> store \<Rightarrow> cellid option" where
  "hovered_after calls s =
     (case run calls s of Inl f \<Rightarrow> None | Inr (ress, s') \<Rightarrow> Some (hoveredCellId s'))"

text \<open>A world in which the pointer rests on cell \<open>a\<close>: the store and the memo agree.\<close>

definition world_hover_a :: world where
  "world_hover_a =
     \<lparr>api = \<lparr>selectedCellId = None, hoveredCellId = Some ''a'',
              cells = [Some ''a'' \<mapsto> \<lparr>cell_id = Some ''a'', state = HOVERED, ownerId = None,
                                      structures = [], createdAt = 1\<rparr>],
              notified = []\<rparr>,
      currentHoveredCellId = Some ''a'', emitted = [], ticks = 0\<rparr>"

text \<open>
  A stand-in for the index: like the real one it gives the cells of different
  resolutions different ids.
\<close>

definition example_index :: "real \<Rightarrow> real \<Rightarrow> nat \<Rightarrow> cellid" where
  "example_index lat lng res =
     Some (if res = DEFAULT_RESOLUTION then ''fine-cell''
           else if res = VISIBLE_GRID_RESOLUTION then ''coarse-cell''
           else ''other-cell'')"

text \<open>
  The store \<open>store_a\<close> with its objects at addresses: the record of \<open>a\<close> at 0, the
  \<open>Map\<close> at 1.
\<close>

definition heap_a :: heap where
  "heap_a =
     \<lparr>records = [0 \<mapsto> \<lparr>cell_id = Some ''a'', state = SELECTED, ownerId = None,
                            structures = [], createdAt = 1\<rparr>],
      maps = [1 \<mapsto> [Some ''a'' \<mapsto> 0]],
      next_ref = 2\<rparr>"

definition state_a :: state_obj where
  "state_a = \<lparr>obj_selectedCellId = Some ''a'', obj_hoveredCellId = None, obj_cells = 1\<rparr>"


definition event_10_20 :: pointer_event where
  "event_10_20 =
     \<lparr>event_point = latLngToVector3 10 20 (GLOBE_RADIUS * INTERACTION_RADIUS_MULT),
      event_intersections = None\<rparr>"

section \<open>The store's operations never fault\<close>

lemma truthy_Some: "truthy c \<Longrightarrow> \<exists>i. c = Some i \<and> i \<noteq> []"
  by (cases c) (simp_all add: truthy_def)

lemma selectCell_total: "\<exists>res s'. selectCell now c s = Inr (res, s')"
  by (simp add: selectCell_def Let_def split: option.splits)

lemma setHoveredCell_total: "\<exists>res s'. setHoveredCell now c s = Inr (res, s')"
  by (simp add: setHoveredCell_def Let_def split: option.splits)

section \<open>What \<open>selectCell\<close> does\<close>

lemma selectCell_selected:
  "selectCell now c s = Inr (res, s') \<Longrightarrow>
     selectedCellId s' = c \<and> hoveredCellId s' = hoveredCellId s \<and>
     (\<exists>r. cells s' c = Some r \<and> state r = SELECTED) \<and> success res"
  by (auto simp: selectCell_def Let_def notifySubscribers_def split: option.splits if_splits)

lemma selectCell_new_record:
  "selectCell now c s = Inr (res, s') \<Longrightarrow> cells s c = None \<Longrightarrow>
     cells s' c = Some \<lparr>cell_id = c, state = SELECTED, ownerId = None, structures = [],
                        createdAt = now\<rparr>"
  by (auto simp: selectCell_def Let_def notifySubscribers_def createCell_def no_options_def
      split: option.splits if_splits)

lemma selectCell_old_record:
  "selectCell now c s = Inr (res, s') \<Longrightarrow> cells s c = Some r \<Longrightarrow>
     cells s' c = Some (r\<lparr>state := SELECTED\<rparr>)"
  by (auto simp: selectCell_def Let_def notifySubscribers_def split: option.splits if_splits)

lemma selectCell_notified:
  "selectCell now c s = Inr (res, s') \<Longrightarrow> notified s' = notified s @ [getState s']"
  by (auto simp: selectCell_def Let_def notifySubscribers_def getState_def
      split: option.splits if_splits)

lemma selectCell_others:
  "selectCell now c s = Inr (res, s') \<Longrightarrow> k \<noteq> c \<Longrightarrow>
     cells s' k =
       (if k = selectedCellId s \<and> truthy k
        then map_option (\<lambda>r. r\<lparr>state := DEFAULT\<rparr>) (cells s k) else cells s k)"
  by (auto simp: selectCell_def Let_def notifySubscribers_def split: option.splits if_splits)

lemma selectCell_mirrored:
  "selectCell now c s = Inr (res, s') \<Longrightarrow> selection_mirrored s'"
  by (auto simp: selectCell_def Let_def notifySubscribers_def selection_mirrored_def
      split: option.splits if_splits)

section \<open>What \<open>clearSelection\<close> does\<close>

lemma clearSelection_mirrored: "selection_mirrored (snd (clearSelection s))"
  by (auto simp: clearSelection_def Let_def notifySubscribers_def selection_mirrored_def
      split: option.splits if_splits)

lemma clearSelection_success: "success (fst (clearSelection s))"
  by (simp add: clearSelection_def Let_def)

section \<open>What \<open>setHoveredCell\<close> does\<close>

lemma setHoveredCell_keeps_selected:
  "setHoveredCell now c s = Inr (res, s') \<Longrightarrow> cells s k = Some r \<Longrightarrow> state r = SELECTED \<Longrightarrow>
   cells s' k = Some r"
  by (auto simp: setHoveredCell_def Let_def notifySubscribers_def split: option.splits if_splits)

lemma setHoveredCell_pointers:
  "setHoveredCell now c s = Inr (res, s') \<Longrightarrow>
   selectedCellId s' = selectedCellId s \<and> hoveredCellId s' = c \<and> success res"
  by (auto simp: setHoveredCell_def Let_def notifySubscribers_def split: option.splits if_splits)

lemma setHoveredCell_noop:
  "hoveredCellId s = c \<Longrightarrow>
   setHoveredCell now c s = Inr (\<lparr>success = True, res_cellId = Some c, res_cell = None\<rparr>, s)"
  by (simp add: setHoveredCell_def)

lemma setHoveredCell_notified:
  "setHoveredCell now c s = Inr (res, s') \<Longrightarrow> hoveredCellId s \<noteq> c \<Longrightarrow>
   notified s' = notified s @ [getState s']"
  by (auto simp: setHoveredCell_def Let_def notifySubscribers_def getState_def
      split: option.splits if_splits)

lemma setHoveredCell_mirrored:
  assumes "setHoveredCell now c s = Inr (res, s')" and "selection_mirrored s"
  shows "selection_mirrored s'"
proof (cases "selectedCellId s")
  case None
  then show ?thesis
    using setHoveredCell_pointers[OF assms(1)] by (simp add: selection_mirrored_def)
next
  case (Some i)
  with assms(2) obtain r where r: "cells s (Some i) = Some r" "state r = SELECTED"
    by (auto simp: selection_mirrored_def split: option.splits)
  have "cells s' (Some i) = Some r"
    by (rule setHoveredCell_keeps_selected[OF assms(1) r])
  moreover have "selectedCellId s' = Some i"
    using setHoveredCell_pointers[OF assms(1)] Some by simp
  ultimately show ?thesis using r(2) by (simp add: selection_mirrored_def)
qed

section \<open>Sequences of calls\<close>

lemma call_step:
  assumes "selection_mirrored s"
  shows "\<exists>res s'. call now a s = Inr (res, s') \<and> success res \<and> selection_mirrored s'"
proof (cases a)
  case (SelectCell c)
  obtain res s' where e: "selectCell now c s = Inr (res, s')"
    using selectCell_total by blast
  then show ?thesis
    using SelectCell selectCell_selected[OF e] selectCell_mirrored[OF e] by simp
next
  case ClearSelection
  then show ?thesis
    using clearSelection_mirrored[of s] clearSelection_success[of s]
    by (cases "clearSelection s") simp
next
  case (SetHoveredCell c)
  obtain res s' where e: "setHoveredCell now c s = Inr (res, s')"
    using setHoveredCell_total by blast
  then show ?thesis
    using SetHoveredCell setHoveredCell_pointers[OF e] setHoveredCell_mirrored[OF e assms]
    by simp
qed

lemma run_steps:
  "selection_mirrored s \<Longrightarrow>
   \<exists>ress s'. run calls s = Inr (ress, s') \<and> length ress = length calls \<and>
             (\<forall>res \<in> set ress. success res) \<and> selection_mirrored s'"
proof (induction calls arbitrary: s)
  case Nil
  then show ?case by simp
next
  case (Cons na rest)
  obtain now a where na: "na = (now, a)" by (cases na)
  obtain res s1 where st: "call now a s = Inr (res, s1)" "success res" "selection_mirrored s1"
    using call_step[OF Cons.prems] by blast
  obtain ress s2 where rs: "run rest s1 = Inr (ress, s2)" "length ress = length rest"
      "\<forall>res \<in> set ress. success res" "selection_mirrored s2"
    using Cons.IH[OF st(3)] by blast
  show ?case using na st rs by simp
qed

lemma initial_mirrored: "selection_mirrored initial_store"
  by (simp add: selection_mirrored_def initial_store_def)

section \<open>The interaction handlers\<close>

lemma handleCellHoverExit_eq:
  "\<exists>res s'. setHoveredCell (clk (Suc (ticks w))) None (api w) = Inr (res, s') \<and>
     handleCellHoverExit clk c w =
       Inr (w\<lparr>api := s', emitted := emitted w @ [cellUnhovered (clk (ticks w)) c],
              ticks := Suc (Suc (ticks w))\<rparr>)"
proof -
  obtain res s' where e: "setHoveredCell (clk (Suc (ticks w))) None (api w) = Inr (res, s')"
    using setHoveredCell_total by blast
  then show ?thesis
    by (simp add: handleCellHoverExit_def emitEvent_def Let_def)
qed


lemma handleCellSelect_eq:
  "\<exists>res s'. selectCell (clk (Suc (ticks w))) c (api w) = Inr (res, s') \<and>
     handleCellSelect clk c md w =
       Inr (w\<lparr>api := s', emitted := emitted w @ [cellSelected (clk (ticks w)) c md],
              ticks := Suc (Suc (ticks w))\<rparr>)"
proof -
  obtain res s' where e: "selectCell (clk (Suc (ticks w))) c (api w) = Inr (res, s')"
    using selectCell_total by blast
  then show ?thesis
    by (simp add: handleCellSelect_def emitEvent_def Let_def)
qed

lemma hover_exit_action:
  "handlePointerAction clk ''hover-exit'' None ctx w = handleCellHoverExit clk (previousCellId ctx) w"
  by (simp add: handlePointerAction_def truthy_def)


lemma select_action:
  "truthy c \<Longrightarrow> handlePointerAction clk ''select'' c ctx w = handleCellSelect clk c ctx w"
  by (simp add: handlePointerAction_def)



lemma onPointerLeave_hovered:
  assumes "truthy (currentHoveredCellId w)"
  shows "\<exists>w'. onPointerLeave clk w = Inr w' \<and>
           emitted w' = emitted w @ [cellUnhovered (clk (ticks w)) (currentHoveredCellId w)] \<and>
           hoveredCellId (api w') = None \<and> currentHoveredCellId w' = None \<and>
           selectedCellId (api w') = selectedCellId (api w)"
proof -
  let ?m = "currentHoveredCellId w"
  obtain r1 s1 where x1: "setHoveredCell (clk (Suc (ticks w))) None (api w) = Inr (r1, s1)"
      and x2: "handleCellHoverExit clk ?m w =
                 Inr (w\<lparr>api := s1, emitted := emitted w @ [cellUnhovered (clk (ticks w)) ?m],
                        ticks := Suc (Suc (ticks w))\<rparr>)"
      using handleCellHoverExit_eq[of clk w ?m] by blast
  have "hoveredCellId s1 = None \<and> selectedCellId s1 = selectedCellId (api w)"
    using setHoveredCell_pointers[OF x1] by simp
  then show ?thesis
    using assms x2 by (simp add: onPointerLeave_def hover_exit_action)
qed

lemma onPointerLeave_idle:
  "\<not> truthy (currentHoveredCellId w) \<Longrightarrow> onPointerLeave clk w = Inr w"
  by (simp add: onPointerLeave_def)

lemma onPointerDown_selects:
  assumes "truthy (g (event_point e))"
  shows "\<exists>w'. onPointerDown g clk e w = Inr w' \<and>
           emitted w' = emitted w @ [cellSelected (clk (ticks w)) (g (event_point e))
               \<lparr>point = Some (event_point e), intersection = first_intersection e, previousCellId = None\<rparr>] \<and>
           selectedCellId (getState (api w')) = g (event_point e) \<and>
           currentHoveredCellId w' = currentHoveredCellId w"
proof -
  let ?c = "g (event_point e)"
  let ?ctx = "\<lparr>point = Some (event_point e), intersection = first_intersection e, previousCellId = None\<rparr>"
  obtain r1 s1 where x1: "selectCell (clk (Suc (ticks w))) ?c (api w) = Inr (r1, s1)"
      and x2: "handleCellSelect clk ?c ?ctx w =
                 Inr (w\<lparr>api := s1, emitted := emitted w @ [cellSelected (clk (ticks w)) ?c ?ctx],
                        ticks := Suc (Suc (ticks w))\<rparr>)"
      using handleCellSelect_eq[of clk w ?c ?ctx] by blast
  have "selectedCellId s1 = ?c" using selectCell_selected[OF x1] by simp
  then show ?thesis
    using assms x2 by (simp add: onPointerDown_def Let_def select_action getState_def)
qed



section \<open>The projection and its inverse, over the reals\<close>

text \<open>
  On real numbers the inverse projection undoes the projection exactly, for every
  latitude strictly between the poles, every longitude in \<open>[-180, 180)\<close> and every
  positive radius, and the longitude it returns lies in \<open>[-180, 180)\<close> for every point.
  This says nothing of the rounding error of double-precision arithmetic.
\<close>

lemma atan2_polar:
  assumes r: "0 < r" and lo: "- pi < t" and hi: "t \<le> pi"
  shows "atan2 (r * sin t) (r * cos t) = t"
proof -
  consider (mid) "- (pi / 2) < t" "t < pi / 2" | (up) "pi / 2 < t" | (down) "t < - (pi / 2)"
    | (top) "t = pi / 2" | (bot) "t = - (pi / 2)"
    by linarith
  then show ?thesis
  proof cases
    case mid
    have c: "0 < cos t" using mid by (simp add: cos_gt_zero_pi)
    have "r * sin t / (r * cos t) = tan t" using r by (simp add: tan_def)
    moreover have "0 < r * cos t" using r c by simp
    ultimately show ?thesis using mid by (simp add: atan2_def arctan_tan)
  next
    case up
    have c: "cos t < 0"
      using cos_monotone_0_pi[of "pi / 2" t] up hi by simp
    have s: "0 \<le> sin t" using up hi by (intro sin_ge_zero) (use pi_gt_zero in linarith)+
    have q: "r * sin t / (r * cos t) = tan (t - pi)" using r by (simp add: tan_def)
    have "arctan (tan (t - pi)) = t - pi"
      using up hi by (intro arctan_tan) linarith+
    moreover have "r * cos t < 0" using r c by (simp add: mult_pos_neg)
    moreover have "0 \<le> r * sin t" using r s by simp
    ultimately show ?thesis using q by (simp add: atan2_def)
  next
    case down
    have c: "cos t < 0"
      using cos_monotone_0_pi[of "pi / 2" "- t"] down lo by simp
    have "0 < sin (- t)" using down lo by (intro sin_gt_zero) linarith+
    then have s: "sin t < 0" by simp
    have q: "r * sin t / (r * cos t) = tan (t + pi)" using r by (simp add: tan_def)
    have "arctan (tan (t + pi)) = t + pi"
      using down lo by (intro arctan_tan) linarith+
    moreover have "r * cos t < 0" using r c by (simp add: mult_pos_neg)
    moreover have "r * sin t < 0" using r s by (simp add: mult_pos_neg)
    ultimately show ?thesis using q by (simp add: atan2_def)
  next
    case top
    show ?thesis unfolding top using r by (simp add: atan2_def)
  next
    case bot
    show ?thesis unfolding bot using r by (simp add: atan2_def)
  qed
qed

lemma sphere_norm:
  fixes a b c d R :: real
  assumes "a\<^sup>2 + c\<^sup>2 = 1" and "b\<^sup>2 + d\<^sup>2 = 1"
  shows "(- R * a * b) * (- R * a * b) + (R * c) * (R * c) + (R * a * d) * (R * a * d) = R\<^sup>2"
proof -
  have "(- R * a * b) * (- R * a * b) + (R * c) * (R * c) + (R * a * d) * (R * a * d)
        = R\<^sup>2 * (a\<^sup>2 * (b\<^sup>2 + d\<^sup>2) + c\<^sup>2)"
    by (simp add: power2_eq_square algebra_simps)
  also have "\<dots> = R\<^sup>2" using assms by simp
  finally show ?thesis .
qed

lemma scale_bounds:
  fixes u :: real
  assumes "0 < u" and "u < 180"
  shows "0 < u * (pi / 180)" and "u * (pi / 180) < pi"
proof -
  show "0 < u * (pi / 180)" using assms(1) pi_gt_zero by simp
  have "u * (pi / 180) < 180 * (pi / 180)"
    using assms(2) pi_gt_zero by (intro mult_strict_right_mono) simp_all
  then show "u * (pi / 180) < pi" by simp
qed

lemma normalize_latLngToVector3:
  assumes "0 < R"
  shows "normalize (latLngToVector3 lat lng R) =
         Vector3 (- (sin ((90 - lat) * (pi / 180)) * cos ((lng + 180) * (pi / 180))))
                 (cos ((90 - lat) * (pi / 180)))
                 (sin ((90 - lat) * (pi / 180)) * sin ((lng + 180) * (pi / 180)))"
proof -
  let ?p = "(90 - lat) * (pi / 180)" and ?t = "(lng + 180) * (pi / 180)"
  have "(- R * sin ?p * cos ?t) * (- R * sin ?p * cos ?t) + (R * cos ?p) * (R * cos ?p)
        + (R * sin ?p * sin ?t) * (R * sin ?p * sin ?t) = R\<^sup>2"
    by (rule sphere_norm) simp_all
  then have "vec_length (latLngToVector3 lat lng R) = sqrt (R\<^sup>2)"
    unfolding latLngToVector3_def Let_def vec_length.simps by (rule arg_cong)
  then have len: "vec_length (latLngToVector3 lat lng R) = R"
    using assms by simp
  have "normalize (latLngToVector3 lat lng R) = multiplyScalar (latLngToVector3 lat lng R) (1 / R)"
    using assms len by (simp add: normalize_def divideScalar_def)
  also have "\<dots> = Vector3 (- (sin ?p * cos ?t)) (cos ?p) (sin ?p * sin ?t)"
    unfolding latLngToVector3_def Let_def multiplyScalar.simps using assms by simp
  finally show ?thesis .
qed

lemma latLng_roundtrip:
  assumes "- 90 < lat" "lat < 90" "- 180 \<le> lng" "lng < 180" "0 < R"
  shows "vector3ToLatLng (latLngToVector3 lat lng R) = (lat, lng)"
proof -
  let ?p = "(90 - lat) * (pi / 180)" and ?t = "(lng + 180) * (pi / 180)"
  have p: "0 < ?p" "?p < pi"
    using scale_bounds[of "90 - lat"] assms(1,2) by simp_all
  have sp: "0 < sin ?p" using p by (rule sin_gt_zero)
  have t: "0 \<le> ?t" "?t < 2 * pi"
  proof -
    show "0 \<le> ?t" using assms(3) pi_gt_zero by simp
    have "?t < 360 * (pi / 180)"
      using assms(4) pi_gt_zero by (intro mult_strict_right_mono) simp_all
    then show "?t < 2 * pi" by simp
  qed
  have lat': "90 - arccos (cos ?p) * (180 / pi) = lat"
    using p by (simp add: arccos_cos field_simps)
  have lng': "(let l = atan2 (sin ?p * sin ?t) (sin ?p * cos ?t) * (180 / pi) - 180
               in if l < - 180 then l + 360 else l) = lng"
  proof (cases "?t \<le> pi")
    case True
    have "atan2 (sin ?p * sin ?t) (sin ?p * cos ?t) = ?t"
      using sp t True pi_gt_zero by (intro atan2_polar) linarith+
    then show ?thesis using assms(3) by (simp add: field_simps)
  next
    case False
    have "atan2 (sin ?p * sin (?t - 2 * pi)) (sin ?p * cos (?t - 2 * pi)) = ?t - 2 * pi"
      using sp t False by (intro atan2_polar) linarith+
    moreover have "sin (?t - 2 * pi) = sin ?t" "cos (?t - 2 * pi) = cos ?t"
      by (simp_all add: sin_diff cos_diff)
    ultimately have a: "atan2 (sin ?p * sin ?t) (sin ?p * cos ?t) = ?t - 2 * pi" by simp
    have "(?t - 2 * pi) * (180 / pi) - 180 = lng - 360" by (simp add: field_simps)
    then show ?thesis using a assms(4) by (simp add: Let_def)
  qed
  show ?thesis
    using lat' lng'
    by (simp add: vector3ToLatLng_def normalize_latLngToVector3[OF assms(5)] Let_def)
qed

lemma atan2_range: "- pi < atan2 b a \<and> atan2 b a \<le> pi"
proof -
  have lo: "- (pi / 2) < arctan (b / a)" and hi: "arctan (b / a) < pi / 2"
    by (rule arctan_lbound, rule arctan_ubound)
  consider (pos) "0 < a" | (neg_up) "a < 0" "0 \<le> b" | (neg_down) "a < 0" "b < 0" | (zero) "a = 0"
    by linarith
  then show ?thesis
  proof cases
    case pos
    then have "atan2 b a = arctan (b / a)" by (simp add: atan2_def)
    then show ?thesis using lo hi pi_gt_zero by linarith
  next
    case neg_up
    then have "b / a \<le> 0" by (simp add: divide_nonneg_neg)
    then have "arctan (b / a) \<le> 0" by (simp add: arctan_le_zero_iff)
    moreover have "atan2 b a = arctan (b / a) + pi" using neg_up by (simp add: atan2_def)
    ultimately show ?thesis using lo pi_gt_zero by linarith
  next
    case neg_down
    then have "0 < b / a" by (simp add: divide_neg_neg)
    then have "0 < arctan (b / a)" by (simp add: zero_less_arctan_iff)
    moreover have "atan2 b a = arctan (b / a) - pi" using neg_down by (simp add: atan2_def)
    ultimately show ?thesis using hi pi_gt_zero by linarith
  next
    case zero
    then have "atan2 b a = pi / 2 \<or> atan2 b a = - (pi / 2) \<or> atan2 b a = 0"
      by (simp add: atan2_def)
    then show ?thesis using pi_gt_zero by linarith
  qed
qed

lemma vector3ToLatLng_lng_range:
  "- 180 \<le> snd (vector3ToLatLng p) \<and> snd (vector3ToLatLng p) < 180"
proof -
  obtain nx ny nz where n: "normalize p = Vector3 nx ny nz" by (cases "normalize p")
  let ?l = "atan2 nz (- nx) * (180 / pi) - 180"
  have r: "- pi < atan2 nz (- nx)" "atan2 nz (- nx) \<le> pi"
    using atan2_range[of nz "- nx"] by simp_all
  have "- pi * (180 / pi) < atan2 nz (- nx) * (180 / pi)"
    using r(1) pi_gt_zero by (intro mult_strict_right_mono) simp_all
  then have lo: "- 360 < ?l" using pi_gt_zero by simp
  have "atan2 nz (- nx) * (180 / pi) \<le> pi * (180 / pi)"
    using r(2) pi_gt_zero by (intro mult_right_mono) simp_all
  then have hi: "?l \<le> 0" using pi_gt_zero by simp
  have "snd (vector3ToLatLng p) = (if ?l < - 180 then ?l + 360 else ?l)"
    by (simp add: vector3ToLatLng_def n Let_def)
  then show ?thesis using lo hi by (simp split: if_splits)
qed

lemma event_10_20_resolves: "vector3ToLatLng (event_point event_10_20) = (10, 20)"
  by (simp add: event_10_20_def latLng_roundtrip GLOBE_RADIUS_def INTERACTION_RADIUS_MULT_def)


section \<open>The ring count\<close>

lemma rings_bounds:
  "MIN_GRID_RINGS \<le> hexCells_rings est \<and> hexCells_rings est \<le> MAX_GRID_RINGS"
  by (simp add: hexCells_rings_def clamp_def Let_def MIN_GRID_RINGS_def MAX_GRID_RINGS_def)

lemma desired_over_step:
  assumes "0 < m"
  shows "(pi / 2 + degToRad 8) / (m * (pi / 180)) = (90 + 8) / m"
proof -
  have e: "pi / 2 + degToRad 8 = (90 + 8) * (pi / 180)"
    by (simp add: degToRad_def field_simps)
  have "(90 + 8) * (pi / 180) / (m * (pi / 180)) = (90 + 8) / m"
    using assms pi_gt_zero by simp
  then show ?thesis unfolding e .
qed

lemma max_scaled:
  fixes a b k :: real
  assumes "0 < k"
  shows "max (a * k) (b * k) = max a b * k"
  using assms by (simp add: max_def)

lemma rings_in_degrees:
  "hexCells_rings (Some (degToRad s)) = ring_count_spec s (180 / (10 ^ 6 * pi))"
proof -
  let ?k = "pi / 180" and ?f = "180 / (10 ^ 6 * pi)"
  have k: "0 < ?k" using pi_gt_zero by simp
  have f: "0 < ?f" using pi_gt_zero by simp
  have "1 / 10 ^ 6 = ?f * ?k" using pi_gt_zero by simp
  then have "max (degToRad s) (1 / 10 ^ 6) = max (s * ?k) (?f * ?k)"
    by (simp add: degToRad_def)
  also have "\<dots> = max s ?f * ?k" by (rule max_scaled[OF k])
  finally have mx: "max (degToRad s) (1 / 10 ^ 6) = max s ?f * ?k" .
  have pos: "0 < max s ?f" using f by (simp add: less_max_iff_disj)
  have "(pi / 2 + degToRad 8) / max (degToRad s) (1 / 10 ^ 6) = (90 + 8) / max s ?f"
    unfolding mx by (rule desired_over_step[OF pos])
  then show ?thesis
    by (simp add: hexCells_rings_def ring_count_spec_def clamp_def Let_def)
qed

lemma ceiling_98_6: "\<lceil>(98::real) / 6\<rceil> = 17"
  by (simp add: ceiling_eq_iff)

lemma rings_6deg: "hexCells_rings (Some (degToRad 6)) = 17"
proof -
  have "(6::real) \<ge> 180 / (10 ^ 6 * pi)"
  proof -
    have "180 / (10 ^ 6 * pi) \<le> 180 / (10 ^ 6 * 2)"
      using pi_ge_two by (intro divide_left_mono) simp_all
    then show ?thesis by simp
  qed
  then have "max 6 (180 / (10 ^ 6 * pi)) = (6::real)" by simp
  then show ?thesis
    using ceiling_98_6
    by (simp add: rings_in_degrees ring_count_spec_def MIN_GRID_RINGS_def MAX_GRID_RINGS_def)
qed

lemma rings_zero_step: "hexCells_rings (Some 0) = MAX_GRID_RINGS"
proof -
  have "(140::real) \<le> (pi / 2 + degToRad 8) * 10 ^ 6"
    using pi_ge_two by (simp add: degToRad_def)
  then have "of_int 140 - 1 < (pi / 2 + degToRad 8) / max 0 (1 / 10 ^ 6)"
    by simp
  then have "140 \<le> \<lceil>(pi / 2 + degToRad 8) / max 0 (1 / 10 ^ 6)\<rceil>"
    by (simp only: le_ceiling_iff)
  then show ?thesis
    by (simp add: hexCells_rings_def clamp_def Let_def MIN_GRID_RINGS_def MAX_GRID_RINGS_def)
qed


section \<open>Snapshots on the heap\<close>

lemma getState_heap_copy:
  assumes "allocated h st" and "getState_heap h st = (h1, snap)"
  shows "view h1 snap = view h st" and "view h1 st = view h st" and "allocated h1 st"
    and "obj_cells snap \<noteq> obj_cells st" and "obj_cells snap < next_ref h1"
  using assms
  by (auto simp: getState_heap_def Let_def view_def entries_of_def allocated_def less_Suc_eq
      split: option.splits intro!: ext)

lemma held_ref_not_fresh:
  "\<forall>k r. es k = Some r \<longrightarrow> r < (n::nat) \<Longrightarrow> es k = Some n \<Longrightarrow> False"
  by (meson less_irrefl)

lemma mutate_shallow:
  assumes "allocated h st" and "obj_cells snap \<noteq> obj_cells st" and "obj_cells snap < next_ref h"
    and "\<not> touches_record m" and "mutate (h, snap) m = (h', snap')"
  shows "view h' st = view h st \<and> allocated h' st \<and> obj_cells snap' = obj_cells snap \<and>
         obj_cells snap' < next_ref h'"
  using assms
  by (cases m)
     (auto simp: Let_def view_def entries_of_def allocated_def less_Suc_eq
        split: option.splits if_splits intro!: ext dest: held_ref_not_fresh)

lemma mutations_shallow:
  assumes "allocated h st" and "obj_cells snap \<noteq> obj_cells st" and "obj_cells snap < next_ref h"
    and "\<forall>m \<in> set ms. \<not> touches_record m"
  shows "view (fst (foldl mutate (h, snap) ms)) st = view h st \<and>
         allocated (fst (foldl mutate (h, snap) ms)) st"
  using assms
proof (induction ms arbitrary: h snap)
  case Nil
  then show ?case by simp
next
  case (Cons m ms)
  obtain h' snap' where e: "mutate (h, snap) m = (h', snap')" by (cases "mutate (h, snap) m")
  have nt: "\<not> touches_record m" using Cons.prems(4) by simp
  have st: "view h' st = view h st \<and> allocated h' st \<and> obj_cells snap' = obj_cells snap \<and>
         obj_cells snap' < next_ref h'"
    by (rule mutate_shallow[OF Cons.prems(1,2,3) nt e])
  have "view (fst (foldl mutate (h', snap') ms)) st = view h' st \<and>
         allocated (fst (foldl mutate (h', snap') ms)) st"
    using Cons.IH[of h' snap'] st Cons.prems(2,4) by simp
  then show ?case using e st by simp
qed


section \<open>From a pointer-down to a selected cell\<close>

text \<open>
  Claim C1, as the code has it. \<open>getCellIdFromPoint\<close> passes the visible-grid
  resolution (4) to the index, not the fine resolution (12). For a pointer-down whose
  intersection point resolves to the geographic coordinates (10, 20), let \<open>C\<close> be the
  cell id the index gives for (10, 20) at the visible-grid resolution, a non-empty id.
  Then the picking pipeline resolves the point to \<open>C\<close>, the select path returns, the
  snapshot \<open>getState()\<close> afterwards has \<open>selectedCellId = C\<close>, and exactly one event is
  emitted: a CELL_SELECTED event whose payload has \<open>cellId = C\<close>.
\<close>

theorem pointer_down_selects:
  assumes "vector3ToLatLng (event_point e) = (10, 20)"
    and "latLngToCell 10 20 VISIBLE_GRID_RESOLUTION = C"
    and "truthy C"
  shows "getCellIdFromPoint latLngToCell (event_point e) = C \<and>
         (\<exists>w' ev.
            onPointerDown (getCellIdFromPoint latLngToCell) clk e w = Inr w' \<and>
            selectedCellId (getState (api w')) = C \<and>
            emitted w' = emitted w @ [ev] \<and>
            etype ev = CELL_SELECTED \<and> cellId (payload ev) = C)"
proof -
  have c: "getCellIdFromPoint latLngToCell (event_point e) = C"
    using assms(1,2) by (simp add: getCellIdFromPoint_def)
  then have t: "truthy (getCellIdFromPoint latLngToCell (event_point e))"
    using assms(3) by simp
  let ?ctx = "\<lparr>point = Some (event_point e), intersection = first_intersection e,
               previousCellId = None\<rparr>"
  obtain w' where w: "onPointerDown (getCellIdFromPoint latLngToCell) clk e w = Inr w'"
    "emitted w' = emitted w @ [cellSelected (clk (ticks w)) C ?ctx]"
    "selectedCellId (getState (api w')) = C"
    using onPointerDown_selects[of "getCellIdFromPoint latLngToCell" e clk w, OF t] c by auto
  have "etype (cellSelected (clk (ticks w)) C ?ctx) = CELL_SELECTED \<and>
        cellId (payload (cellSelected (clk (ticks w)) C ?ctx)) = C"
    by (simp add: cellSelected_def createEvent_def)
  then show ?thesis using c w by auto
qed

theorem pointer_down_selects_witness:
  "getCellIdFromPoint example_index (event_point event_10_20) = Some ''coarse-cell'' \<and>
   (\<exists>w' ev.
      onPointerDown (getCellIdFromPoint example_index) (\<lambda>n. n) event_10_20 initial_world = Inr w' \<and>
      selectedCellId (getState (api w')) = Some ''coarse-cell'' \<and>
      emitted w' = [ev] \<and> etype ev = CELL_SELECTED \<and> cellId (payload ev) = Some ''coarse-cell'')"
proof -
  have h2: "example_index 10 20 VISIBLE_GRID_RESOLUTION = Some ''coarse-cell''"
    by (simp add: example_index_def VISIBLE_GRID_RESOLUTION_def DEFAULT_RESOLUTION_def)
  have h3: "truthy (Some ''coarse-cell'')" by (simp add: truthy_def)
  have e: "emitted initial_world = []" by (simp add: initial_world_def)
  show ?thesis
    using pointer_down_selects[where e = event_10_20 and latLngToCell = example_index
            and C = "Some ''coarse-cell''" and clk = "\<lambda>n. n" and w = initial_world,
            OF event_10_20_resolves h2 h3] e
    by simp
qed

text \<open>
  Claim C1 as stated fails: with an index that tells resolutions apart, the cell the
  pipeline picks for the point of (10, 20) is the cell of the visible-grid resolution,
  which is not the cell of the fine resolution.
\<close>

theorem picking_resolution_counterexample:
  "vector3ToLatLng (event_point event_10_20) = (10, 20) \<and>
   getCellIdFromPoint example_index (event_point event_10_20) =
     example_index 10 20 VISIBLE_GRID_RESOLUTION \<and>
   getCellIdFromPoint example_index (event_point event_10_20) \<noteq>
     example_index 10 20 DEFAULT_RESOLUTION"
  using event_10_20_resolves
  by (simp add: getCellIdFromPoint_def example_index_def VISIBLE_GRID_RESOLUTION_def
      DEFAULT_RESOLUTION_def)

section \<open>Selection overrides hover\<close>

text \<open>
  Claim C2. Let \<open>x\<close> be the selected cell and let its record say SELECTED. Hovering \<open>x\<close>
  and then hovering any \<open>y\<close> (another cell, \<open>x\<close> again or nothing) both return, and
  the record of \<open>x\<close> is the same record after each call: it still says SELECTED, and
  \<open>x\<close> is still the selected cell. \<open>getCellColor\<close> for the selected id is the selected
  colour \<open>#00ff88\<close> for every \<open>cells\<close> map and every hovered id, whatever the record of
  the cell holds.
\<close>

theorem selection_overrides_hover:
  assumes "selectedCellId s = x" and "cells s x = Some r" and "state r = SELECTED"
  shows "\<exists>res1 s1 res2 s2.
           setHoveredCell t1 x s = Inr (res1, s1) \<and> setHoveredCell t2 y s1 = Inr (res2, s2) \<and>
           cells s1 x = Some r \<and> cells s2 x = Some r \<and>
           selectedCellId s1 = x \<and> selectedCellId s2 = x \<and>
           getCellColor x (cells s2) (selectedCellId s2) (hoveredCellId s2) = ''#00ff88'' \<and>
           (\<forall>cs hov. getCellColor x cs x hov = ''#00ff88'')"
proof -
  obtain res1 s1 where e1: "setHoveredCell t1 x s = Inr (res1, s1)"
    using setHoveredCell_total by blast
  obtain res2 s2 where e2: "setHoveredCell t2 y s1 = Inr (res2, s2)"
    using setHoveredCell_total by blast
  have c1: "cells s1 x = Some r"
    by (rule setHoveredCell_keeps_selected[OF e1 assms(2,3)])
  have c2: "cells s2 x = Some r"
    by (rule setHoveredCell_keeps_selected[OF e2 c1 assms(3)])
  have p1: "selectedCellId s1 = x"
    using setHoveredCell_pointers[OF e1] assms(1) by simp
  have p2: "selectedCellId s2 = x"
    using setHoveredCell_pointers[OF e2] p1 by simp
  have col: "\<And>cs hov. getCellColor x cs x hov = ''#00ff88''"
    by (simp add: getCellColor_def)
  show ?thesis using e1 e2 c1 c2 p1 p2 col by simp
qed

theorem selection_overrides_hover_witness:
  "\<exists>res1 s1 res2 s2.
     setHoveredCell 2 (Some ''a'') store_a = Inr (res1, s1) \<and>
     setHoveredCell 3 (Some ''b'') s1 = Inr (res2, s2) \<and>
     map_option state (cells s1 (Some ''a'')) = Some SELECTED \<and>
     map_option state (cells s2 (Some ''a'')) = Some SELECTED \<and>
     hoveredCellId s2 = Some ''b'' \<and>
     getCellColor (Some ''a'') (cells s2) (selectedCellId s2) (hoveredCellId s2) = ''#00ff88''"
proof -
  let ?r = "\<lparr>cell_id = Some ''a'', state = SELECTED, ownerId = None, structures = [],
             createdAt = 1\<rparr>"
  have h1: "selectedCellId store_a = Some ''a''" by (simp add: store_a_def)
  have h2: "cells store_a (Some ''a'') = Some ?r" by (simp add: store_a_def)
  have h3: "state ?r = SELECTED" by simp
  obtain res1 s1 res2 s2 where w:
    "setHoveredCell 2 (Some ''a'') store_a = Inr (res1, s1)"
    "setHoveredCell 3 (Some ''b'') s1 = Inr (res2, s2)"
    "cells s1 (Some ''a'') = Some ?r"
    "cells s2 (Some ''a'') = Some ?r"
    "getCellColor (Some ''a'') (cells s2) (selectedCellId s2) (hoveredCellId s2) = ''#00ff88''"
    using selection_overrides_hover[OF h1 h2 h3, of 2 3 "Some ''b''"] by blast
  have "hoveredCellId s2 = Some ''b''"
    using setHoveredCell_pointers[OF w(2)] by simp
  with w show ?thesis by simp
qed

section \<open>Hover idempotence\<close>

text \<open>
  Claim C3, as the code has it. When \<open>hoveredCellId\<close> already equals \<open>x\<close>,
  \<open>setHoveredCell(x)\<close> returns at once: the whole store, the log of notifications
  included, is unchanged. Two calls in a row with the same \<open>x\<close> both return, the second
  leaves the store as the first left it, and together they notify the subscribers once
  when \<open>hoveredCellId\<close> differed from \<open>x\<close> before the first call, and not at all when it
  was \<open>x\<close> already.
\<close>

theorem setHoveredCell_idempotent:
  "(hoveredCellId s = x \<longrightarrow>
      setHoveredCell now x s =
        Inr (\<lparr>success = True, res_cellId = Some x, res_cell = None\<rparr>, s)) \<and>
   (\<exists>res1 s1 res2.
      setHoveredCell t1 x s = Inr (res1, s1) \<and> setHoveredCell t2 x s1 = Inr (res2, s1) \<and>
      length (notified s1) = length (notified s) + (if hoveredCellId s = x then 0 else 1))"
proof
  show "hoveredCellId s = x \<longrightarrow>
      setHoveredCell now x s =
        Inr (\<lparr>success = True, res_cellId = Some x, res_cell = None\<rparr>, s)"
    by (simp add: setHoveredCell_noop)
next
  obtain res1 s1 where e1: "setHoveredCell t1 x s = Inr (res1, s1)"
    using setHoveredCell_total by blast
  have h: "hoveredCellId s1 = x" using setHoveredCell_pointers[OF e1] by simp
  have e2: "setHoveredCell t2 x s1 =
              Inr (\<lparr>success = True, res_cellId = Some x, res_cell = None\<rparr>, s1)"
    by (rule setHoveredCell_noop[OF h])
  have n: "length (notified s1) = length (notified s) + (if hoveredCellId s = x then 0 else 1)"
  proof (cases "hoveredCellId s = x")
    case True
    then show ?thesis using e1 by (simp add: setHoveredCell_noop)
  next
    case False
    then show ?thesis using setHoveredCell_notified[OF e1 False] by simp
  qed
  show "\<exists>res1 s1 res2.
      setHoveredCell t1 x s = Inr (res1, s1) \<and> setHoveredCell t2 x s1 = Inr (res2, s1) \<and>
      length (notified s1) = length (notified s) + (if hoveredCellId s = x then 0 else 1)"
    using e1 e2 n by blast
qed

theorem setHoveredCell_idempotent_witness:
  "setHoveredCell 5 None initial_store =
     Inr (\<lparr>success = True, res_cellId = Some None, res_cell = None\<rparr>, initial_store) \<and>
   (\<exists>res1 s1 res2.
      setHoveredCell 1 (Some ''a'') initial_store = Inr (res1, s1) \<and>
      setHoveredCell 2 (Some ''a'') s1 = Inr (res2, s1) \<and>
      length (notified s1) = 1)"
  using setHoveredCell_idempotent[of initial_store None 5 1 2]
        setHoveredCell_idempotent[of initial_store "Some ''a''" 5 1 2]
  by (simp add: initial_store_def)

text \<open>
  Claim C3 as stated fails: on the fresh store nothing is hovered, so two calls
  \<open>setHoveredCell(null)\<close> in a row are both no-ops. The store after them is the initial
  store, whose log of notifications is empty: no notification, not one.
\<close>

theorem setHoveredCell_twice_counterexample:
  "run [(1, SetHoveredCell None), (2, SetHoveredCell None)] initial_store =
     Inr ([\<lparr>success = True, res_cellId = Some None, res_cell = None\<rparr>,
           \<lparr>success = True, res_cellId = Some None, res_cell = None\<rparr>], initial_store) \<and>
   length (notified initial_store) = 0"
  by (simp add: setHoveredCell_def initial_store_def)

section \<open>Selecting one cell, then another\<close>

text \<open>
  Claim C4, as the code has it. From every store, for cell ids \<open>A \<noteq> B\<close>,
  \<open>selectCell(A)\<close> and then \<open>selectCell(B)\<close> both return. Afterwards \<open>B\<close> has a record that
  says SELECTED and \<open>selectedCellId\<close> is \<open>B\<close>; \<open>A\<close> has a record, which says DEFAULT when
  \<open>A\<close> is a non-empty id (the demotion is guarded by the truthiness of the previous id; for
  the empty string or null the record stays SELECTED). The record of the cell a call
  selects is the new record of \<open>createCell\<close> marked SELECTED when the cell had none, and
  its old record marked SELECTED otherwise. Each call notifies the subscribers exactly
  once, with the snapshot of the store it leaves. The demotion does not look at what the
  record says: among the other cells, a call changes the record of the cell that was
  selected before it, when that id is truthy and has a record, to DEFAULT, whatever it
  said, and no other record.
\<close>

theorem selectCell_then_selectCell:
  assumes "A \<noteq> B"
  shows "\<exists>res1 s1 res2 s2.
           selectCell t1 A s = Inr (res1, s1) \<and> selectCell t2 B s1 = Inr (res2, s2) \<and>
           (\<exists>ra. cells s2 A = Some ra \<and> state ra = (if truthy A then DEFAULT else SELECTED)) \<and>
           (\<exists>rb. cells s2 B = Some rb \<and> state rb = SELECTED) \<and>
           selectedCellId s1 = A \<and> selectedCellId s2 = B \<and>
           cells s1 A =
             (case cells s A of
                None \<Rightarrow> Some \<lparr>cell_id = A, state = SELECTED, ownerId = None, structures = [],
                               createdAt = t1\<rparr>
              | Some r \<Rightarrow> Some (r\<lparr>state := SELECTED\<rparr>)) \<and>
           cells s2 B =
             (case cells s1 B of
                None \<Rightarrow> Some \<lparr>cell_id = B, state = SELECTED, ownerId = None, structures = [],
                               createdAt = t2\<rparr>
              | Some r \<Rightarrow> Some (r\<lparr>state := SELECTED\<rparr>)) \<and>
           notified s1 = notified s @ [getState s1] \<and>
           notified s2 = notified s1 @ [getState s2] \<and>
           (\<forall>k. k \<noteq> A \<longrightarrow>
              cells s1 k =
                (if k = selectedCellId s \<and> truthy k
                 then map_option (\<lambda>r. r\<lparr>state := DEFAULT\<rparr>) (cells s k) else cells s k)) \<and>
           (\<forall>k. k \<noteq> B \<longrightarrow>
              cells s2 k =
                (if k = A \<and> truthy A
                 then map_option (\<lambda>r. r\<lparr>state := DEFAULT\<rparr>) (cells s1 k) else cells s1 k))"
proof -
  obtain res1 s1 where e1: "selectCell t1 A s = Inr (res1, s1)"
    using selectCell_total by blast
  obtain res2 s2 where e2: "selectCell t2 B s1 = Inr (res2, s2)"
    using selectCell_total by blast
  from selectCell_selected[OF e1] obtain ra where
    a1: "selectedCellId s1 = A" "cells s1 A = Some ra" "state ra = SELECTED"
    by blast
  have o1: "\<forall>k. k \<noteq> A \<longrightarrow>
              cells s1 k =
                (if k = selectedCellId s \<and> truthy k
                 then map_option (\<lambda>r. r\<lparr>state := DEFAULT\<rparr>) (cells s k) else cells s k)"
    using selectCell_others[OF e1] by blast
  have o2: "\<forall>k. k \<noteq> B \<longrightarrow>
              cells s2 k =
                (if k = A \<and> truthy A
                 then map_option (\<lambda>r. r\<lparr>state := DEFAULT\<rparr>) (cells s1 k) else cells s1 k)"
    using selectCell_others[OF e2] a1(1) by auto
  have "cells s2 A = (if truthy A then Some (ra\<lparr>state := DEFAULT\<rparr>) else Some ra)"
    using o2 assms a1(2) by simp
  then have A_final: "\<exists>r. cells s2 A = Some r \<and> state r = (if truthy A then DEFAULT else SELECTED)"
    using a1(3) by simp
  have B_final: "\<exists>rb. cells s2 B = Some rb \<and> state rb = SELECTED"
    and sB: "selectedCellId s2 = B"
    using selectCell_selected[OF e2] by blast+
  have cr1: "cells s1 A =
             (case cells s A of
                None \<Rightarrow> Some \<lparr>cell_id = A, state = SELECTED, ownerId = None, structures = [],
                               createdAt = t1\<rparr>
              | Some r \<Rightarrow> Some (r\<lparr>state := SELECTED\<rparr>))"
    using selectCell_new_record[OF e1] selectCell_old_record[OF e1]
    by (cases "cells s A") simp_all
  have cr2: "cells s2 B =
             (case cells s1 B of
                None \<Rightarrow> Some \<lparr>cell_id = B, state = SELECTED, ownerId = None, structures = [],
                               createdAt = t2\<rparr>
              | Some r \<Rightarrow> Some (r\<lparr>state := SELECTED\<rparr>))"
    using selectCell_new_record[OF e2] selectCell_old_record[OF e2]
    by (cases "cells s1 B") simp_all
  have n1: "notified s1 = notified s @ [getState s1]"
    by (rule selectCell_notified[OF e1])
  have n2: "notified s2 = notified s1 @ [getState s2]"
    by (rule selectCell_notified[OF e2])
  show ?thesis
    apply (rule exI[of _ res1], rule exI[of _ s1], rule exI[of _ res2], rule exI[of _ s2])
    using e1 e2 A_final B_final a1(1) sB cr1 cr2 n1 n2 o1 o2 by (intro conjI) blast+
qed

theorem selectCell_then_selectCell_witness:
  "\<exists>res1 s1 res2 s2.
     selectCell 2 (Some ''a'') store_p_owned = Inr (res1, s1) \<and>
     selectCell 3 (Some ''b'') s1 = Inr (res2, s2) \<and>
     map_option state (cells s1 (Some ''p'')) = Some DEFAULT \<and>
     map_option state (cells s2 (Some ''a'')) = Some DEFAULT \<and>
     map_option state (cells s2 (Some ''b'')) = Some SELECTED \<and>
     selectedCellId s2 = Some ''b'' \<and>
     cells s1 (Some ''a'') =
       Some \<lparr>cell_id = Some ''a'', state = SELECTED, ownerId = None, structures = [],
              createdAt = 2\<rparr> \<and>
     length (notified s1) = 1 \<and> length (notified s2) = 2"
proof -
  have h1: "Some ''a'' \<noteq> Some ''b''" by simp
  have h: "cells store_p_owned (Some ''a'') = None" "notified store_p_owned = []"
    "selectedCellId store_p_owned = Some ''p''"
    "map_option state (cells store_p_owned (Some ''p'')) = Some OWNED"
    by (simp_all add: store_p_owned_def)
  from selectCell_then_selectCell[OF h1, of 2 store_p_owned 3]
  obtain res1 s1 res2 s2 where w:
    "selectCell 2 (Some ''a'') store_p_owned = Inr (res1, s1)"
    "selectCell 3 (Some ''b'') s1 = Inr (res2, s2)"
    "\<exists>ra. cells s2 (Some ''a'') = Some ra \<and> state ra = (if truthy (Some ''a'') then DEFAULT else SELECTED)"
    "\<exists>rb. cells s2 (Some ''b'') = Some rb \<and> state rb = SELECTED"
    "selectedCellId s2 = Some ''b''"
    "cells s1 (Some ''a'') =
             (case cells store_p_owned (Some ''a'') of
                None \<Rightarrow> Some \<lparr>cell_id = Some ''a'', state = SELECTED, ownerId = None, structures = [],
                               createdAt = 2\<rparr>
              | Some r \<Rightarrow> Some (r\<lparr>state := SELECTED\<rparr>))"
    "notified s1 = notified store_p_owned @ [getState s1]"
    "notified s2 = notified s1 @ [getState s2]"
    "\<forall>k. k \<noteq> Some ''a'' \<longrightarrow>
              cells s1 k =
                (if k = selectedCellId store_p_owned \<and> truthy k
                 then map_option (\<lambda>r. r\<lparr>state := DEFAULT\<rparr>) (cells store_p_owned k)
                 else cells store_p_owned k)"
    by (elim exE conjE) blast
  have p: "map_option state (cells s1 (Some ''p'')) = Some DEFAULT"
    using w(9) h(3) by (simp add: truthy_def store_p_owned_def)
  show ?thesis
    apply (rule exI[of _ res1], rule exI[of _ s1], rule exI[of _ res2], rule exI[of _ s2])
    using w(1-8) p h(1,2) by (auto simp: truthy_def)
qed

text \<open>
  Claim C4 as stated fails. Hover \<open>a\<close>, select \<open>a\<close>, select \<open>b\<close> on the fresh store: the
  record of \<open>a\<close> is demoted to DEFAULT while \<open>a\<close> is still the hovered cell. In a store
  whose selected cell \<open>p\<close> has a record that says OWNED, selecting \<open>a\<close> turns that record
  into DEFAULT. And with the empty string for \<open>A\<close>, selecting \<open>A\<close> and then \<open>b\<close> leaves the
  record of \<open>A\<close> SELECTED.
\<close>

theorem selectCell_demotion_counterexample:
  "record_state_after [(1, SetHoveredCell (Some ''a'')), (2, SelectCell (Some ''a'')),
                       (3, SelectCell (Some ''b''))] initial_store (Some ''a'') = Some DEFAULT \<and>
   hovered_after [(1, SetHoveredCell (Some ''a'')), (2, SelectCell (Some ''a'')),
                  (3, SelectCell (Some ''b''))] initial_store = Some (Some ''a'') \<and>
   map_option state (cells store_p_owned (Some ''p'')) = Some OWNED \<and>
   record_state_after [(2, SelectCell (Some ''a''))] store_p_owned (Some ''p'') = Some DEFAULT \<and>
   record_state_after [(1, SelectCell (Some '''')), (2, SelectCell (Some ''b''))] initial_store
     (Some '''') = Some SELECTED"
  by (simp add: record_state_after_def hovered_after_def selectCell_def setHoveredCell_def
      Let_def notifySubscribers_def initial_store_def store_p_owned_def truthy_def
      createCell_def no_options_def getState_def)

section \<open>The ring count of the visible region\<close>

text \<open>
  Claim C6. For every step estimate \<open>s\<close> (in degrees; the code holds it in radians), the
  ring count is the ceiling of (90 + 8) over the larger of \<open>s\<close> and the floor (1e-6
  radians, in degrees), clamped to \<open>[MIN_GRID_RINGS, MAX_GRID_RINGS]\<close>. For every
  estimate, the missing one included, the count lies within the clamps; the ceiling of
  98 / 6 is 17, and a step of 6 degrees gives 17 rings; a step of 0 gives
  \<open>MAX_GRID_RINGS\<close>, not an unbounded count.
\<close>

theorem ring_count:
  "hexCells_rings (Some (degToRad s)) = ring_count_spec s (180 / (10 ^ 6 * pi)) \<and>
   MIN_GRID_RINGS \<le> hexCells_rings est \<and> hexCells_rings est \<le> MAX_GRID_RINGS \<and>
   \<lceil>(98::real) / 6\<rceil> = 17 \<and>
   hexCells_rings (Some (degToRad 6)) = 17 \<and>
   hexCells_rings (Some 0) = MAX_GRID_RINGS"
  using rings_in_degrees[of s] rings_bounds[of est] ceiling_98_6 rings_6deg rings_zero_step
  by blast

section \<open>Pointer moves\<close>



section \<open>The pointer leaves the picking surface\<close>

text \<open>
  Claim C8. When a cell is hovered (the hover memo is a cell id: not null, and not the
  empty string, which no id of the index is), the pointer-leave handler returns, it
  emits exactly one event, a CELL_UNHOVERED event that carries the id that was hovered,
  and it leaves the store's \<open>hoveredCellId\<close> null, in the store and in the snapshot
  \<open>getState()\<close> returns, and the memo null. When no cell is hovered it returns the world
  as it was: no event, no change.
\<close>

theorem onPointerLeave_clears_hover:
  "(truthy (currentHoveredCellId w) \<longrightarrow>
      (\<exists>w' ev.
         onPointerLeave clk w = Inr w' \<and>
         emitted w' = emitted w @ [ev] \<and>
         etype ev = CELL_UNHOVERED \<and> cellId (payload ev) = currentHoveredCellId w \<and>
         hoveredCellId (api w') = None \<and> hoveredCellId (getState (api w')) = None \<and>
         currentHoveredCellId w' = None)) \<and>
   (\<not> truthy (currentHoveredCellId w) \<longrightarrow> onPointerLeave clk w = Inr w)"
proof (intro conjI impI)
  assume t: "truthy (currentHoveredCellId w)"
  obtain w' where w: "onPointerLeave clk w = Inr w'"
    "emitted w' = emitted w @ [cellUnhovered (clk (ticks w)) (currentHoveredCellId w)]"
    "hoveredCellId (api w') = None" "currentHoveredCellId w' = None"
    using onPointerLeave_hovered[OF t] by blast
  let ?ev = "cellUnhovered (clk (ticks w)) (currentHoveredCellId w)"
  have "etype ?ev = CELL_UNHOVERED \<and> cellId (payload ?ev) = currentHoveredCellId w"
    by (simp add: cellUnhovered_def createEvent_def)
  then show "\<exists>w' ev.
         onPointerLeave clk w = Inr w' \<and>
         emitted w' = emitted w @ [ev] \<and>
         etype ev = CELL_UNHOVERED \<and> cellId (payload ev) = currentHoveredCellId w \<and>
         hoveredCellId (api w') = None \<and> hoveredCellId (getState (api w')) = None \<and>
         currentHoveredCellId w' = None"
    using w by (auto simp: getState_def)
next
  assume "\<not> truthy (currentHoveredCellId w)"
  then show "onPointerLeave clk w = Inr w" by (rule onPointerLeave_idle)
qed

theorem onPointerLeave_clears_hover_witness:
  "truthy (currentHoveredCellId world_hover_a) \<and>
   (\<exists>w' ev. onPointerLeave (\<lambda>n. n) world_hover_a = Inr w' \<and>
      emitted w' = [ev] \<and> etype ev = CELL_UNHOVERED \<and> cellId (payload ev) = Some ''a'' \<and>
      hoveredCellId (api w') = None \<and> currentHoveredCellId w' = None) \<and>
   onPointerLeave (\<lambda>n. n) initial_world = Inr initial_world"
proof -
  have t: "truthy (currentHoveredCellId world_hover_a)"
    by (simp add: world_hover_a_def truthy_def)
  have f: "\<not> truthy (currentHoveredCellId initial_world)"
    by (simp add: initial_world_def truthy_def)
  have e: "emitted world_hover_a = []" "currentHoveredCellId world_hover_a = Some ''a''"
    by (simp_all add: world_hover_a_def)
  show ?thesis
    using onPointerLeave_clears_hover[of world_hover_a "\<lambda>n. n"]
          onPointerLeave_clears_hover[of initial_world "\<lambda>n. n"] t f e
    by auto
qed

section \<open>What a snapshot shares with the store\<close>

text \<open>
  Claim C9, as the code has it. The snapshot \<open>getState()\<close> returns is a new object with
  a new \<open>Map\<close>, and it shows what the store holds. Whatever a caller then does to the
  snapshot's own fields and to its \<open>Map\<close> (entries added, replaced by new records,
  removed, the \<open>Map\<close> cleared), in any number and order, the store's state is unchanged
  and so is every snapshot returned afterwards. The record objects are not copied: this
  is not said of writes to the fields of a record object found in the snapshot.
\<close>

theorem snapshot_isolation:
  assumes "allocated h st" and "\<forall>m \<in> set ms. \<not> touches_record m"
  shows "view (fst (getState_heap h st)) (snd (getState_heap h st)) = view h st \<and>
         view (fst (foldl mutate (getState_heap h st) ms)) st = view h st \<and>
         view (fst (getState_heap (fst (foldl mutate (getState_heap h st) ms)) st))
              (snd (getState_heap (fst (foldl mutate (getState_heap h st) ms)) st)) = view h st"
proof -
  obtain h1 snap where g: "getState_heap h st = (h1, snap)" by (cases "getState_heap h st")
  note c = getState_heap_copy[OF assms(1) g]
  let ?h2 = "fst (foldl mutate (h1, snap) ms)"
  have m: "view ?h2 st = view h1 st \<and> allocated ?h2 st"
    by (rule mutations_shallow[OF c(3) c(4) c(5) assms(2)])
  obtain h3 snap3 where g3: "getState_heap ?h2 st = (h3, snap3)" by (cases "getState_heap ?h2 st")
  have "view h3 snap3 = view ?h2 st" using getState_heap_copy(1)[OF _ g3] m by simp
  then show ?thesis using g c m g3 by simp
qed

theorem snapshot_isolation_witness:
  "view (fst (getState_heap heap_a state_a)) (snd (getState_heap heap_a state_a)) = getState store_a \<and>
   view (fst (foldl mutate (getState_heap heap_a state_a)
                [MapDelete (Some ''a''), SetSelected None, MapSetRef (Some ''c'') 0,
                 MapSet (Some ''b'') (createCell 7 (Some ''b'') no_options)])) state_a = getState store_a"
proof -
  have a: "allocated heap_a state_a"
    by (auto simp: allocated_def heap_a_def state_a_def entries_of_def split: if_splits)
  have v: "view heap_a state_a = getState store_a"
    by (auto simp: view_def heap_a_def state_a_def entries_of_def getState_def store_a_def intro!: ext)
  have n: "\<forall>m \<in> set [MapDelete (Some ''a''), SetSelected None, MapSetRef (Some ''c'') 0,
                 MapSet (Some ''b'') (createCell 7 (Some ''b'') no_options)]. \<not> touches_record m"
    by simp
  show ?thesis using snapshot_isolation[OF a n] v by simp
qed

text \<open>
  Claim C9 as stated fails: the snapshot's \<open>Map\<close> holds the store's own record
  objects. In the store where \<open>a\<close> is selected, a caller that takes a snapshot and
  writes \<open>state = OWNED\<close> into the record it finds under \<open>a\<close> has changed the store's
  record of \<open>a\<close> from SELECTED to OWNED.
\<close>

theorem snapshot_record_aliasing_counterexample:
  "map_option state (cells (view heap_a state_a) (Some ''a'')) = Some SELECTED \<and>
   map_option state
     (cells (view (fst (mutate (getState_heap heap_a state_a)
                         (RecordAssign (Some ''a'')
                            \<lparr>cell_id = Some ''a'', state = OWNED, ownerId = None,
                             structures = [], createdAt = 1\<rparr>))) state_a) (Some ''a''))
     = Some OWNED"
  by (simp add: view_def heap_a_def state_a_def entries_of_def getState_heap_def Let_def)

section \<open>The invariant of the reachable stores\<close>

text \<open>
  Claim C10. Every sequence of \<open>selectCell\<close>, \<open>clearSelection\<close> and \<open>setHoveredCell\<close>
  calls, with any cell ids (ids that have no record included) and any clock readings,
  runs from the initial store to its end without a fault; every call returns an object
  with \<open>success: true\<close>; and in the store reached, when \<open>selectedCellId\<close> is not null the
  \<open>cells\<close> map holds a record for it and the record says SELECTED.
\<close>

theorem store_reachable_invariant:
  "\<exists>ress s. run calls initial_store = Inr (ress, s) \<and> length ress = length calls \<and>
            (\<forall>res \<in> set ress. success res) \<and>
            (\<forall>i. selectedCellId s = Some i \<longrightarrow>
                 (\<exists>r. cells s (Some i) = Some r \<and> state r = SELECTED))"
proof -
  obtain ress s where rs: "run calls initial_store = Inr (ress, s)" "length ress = length calls"
      "\<forall>res \<in> set ress. success res" "selection_mirrored s"
    using run_steps[OF initial_mirrored] by blast
  have "\<forall>i. selectedCellId s = Some i \<longrightarrow> (\<exists>r. cells s (Some i) = Some r \<and> state r = SELECTED)"
    using rs(4) by (auto simp: selection_mirrored_def split: option.splits)
  with rs show ?thesis by blast
qed

theorem store_reachable_invariant_witness:
  "\<exists>ress s. run [(1, SelectCell (Some ''a'')), (2, SetHoveredCell (Some ''a'')),
                  (3, SelectCell (Some ''b'')), (4, SetHoveredCell None)] initial_store
               = Inr (ress, s) \<and>
            length ress = 4 \<and> list_all success ress \<and>
            selectedCellId s = Some ''b'' \<and>
            (\<exists>r. cells s (Some ''b'') = Some r \<and> state r = SELECTED)"
proof -
  let ?calls = "[(1::nat, SelectCell (Some ''a'')), (2, SetHoveredCell (Some ''a'')),
                 (3, SelectCell (Some ''b'')), (4, SetHoveredCell None)]"
  obtain ress s where rs:
     "run ?calls initial_store = Inr (ress, s)"
     "length ress = length ?calls"
     "\<forall>res \<in> set ress. success res"
     "\<forall>i. selectedCellId s = Some i \<longrightarrow> (\<exists>r. cells s (Some i) = Some r \<and> state r = SELECTED)"
    using store_reachable_invariant[of ?calls] by blast
  have sel: "selectedCellId s = Some ''b''"
    using rs(1)
    by (auto simp: selectCell_def setHoveredCell_def Let_def notifySubscribers_def
        initial_store_def truthy_def createCell_def no_options_def getState_def
        split: option.splits if_splits sum.splits)
  show ?thesis using rs sel by (auto simp: list_all_iff)
qed

end
